theory Spec2Isabelle
  imports Complex_Main
begin

section \<open>Python string primitives used by gpu\_watch.py\<close>

text \<open>
  Python strings are sequences of code points; the model uses \<open>string\<close>, so it covers
  the code points below 256 (nvidia-smi prints ASCII). The character classes below are
  the ones CPython uses on that range:
  \<^item> \<open>str.strip()\<close> removes the characters for which \<open>str.isspace\<close> holds
    (9 to 13, 28 to 32, 133, 160);
  \<^item> \<open>str.splitlines()\<close> breaks at 10 to 13, 28 to 30 and 133, taking CR LF as
    one break;
  \<^item> \<open>int(str)\<close> skips 9 to 13, 32, 133 and 160 around the literal (not 28 to 31).
\<close>

definition is_space :: "char \<Rightarrow> bool" where
  "is_space c =
     (let n = (of_char c :: nat)
      in (9 \<le> n \<and> n \<le> 13) \<or> (28 \<le> n \<and> n \<le> 32) \<or> n = 133 \<or> n = 160)"

definition is_linebreak :: "char \<Rightarrow> bool" where
  "is_linebreak c =
     (let n = (of_char c :: nat)
      in (10 \<le> n \<and> n \<le> 13) \<or> (28 \<le> n \<and> n \<le> 30) \<or> n = 133)"

definition is_int_space :: "char \<Rightarrow> bool" where
  "is_int_space c =
     (let n = (of_char c :: nat)
      in (9 \<le> n \<and> n \<le> 13) \<or> n = 32 \<or> n = 133 \<or> n = 160)"

definition is_digit :: "char \<Rightarrow> bool" where
  "is_digit c = (let n = (of_char c :: nat) in 48 \<le> n \<and> n \<le> 57)"

definition digit_val :: "char \<Rightarrow> nat" where
  "digit_val c = of_char c - 48"

definition digit_char :: "nat \<Rightarrow> char" where
  "digit_char d = char_of (48 + d)"

text \<open>\<open>s.strip()\<close>\<close>

definition py_strip :: "string \<Rightarrow> string" where
  "py_strip s = rev (dropWhile is_space (rev (dropWhile is_space s)))"

text \<open>\<open>s.splitlines()\<close>: \<open>cur\<close> is the line being collected. A final line break
  does not open an empty last line.\<close>

fun splitlines_from :: "string \<Rightarrow> string \<Rightarrow> string list" where
  "splitlines_from cur [] = (if cur = [] then [] else [cur])"
| "splitlines_from cur [c] = (if is_linebreak c then [cur] else [cur @ [c]])"
| "splitlines_from cur (c # d # ds) =
     (if c = CHR 0x0D \<and> d = CHR 0x0A then cur # splitlines_from [] ds
      else if is_linebreak c then cur # splitlines_from [] (d # ds)
      else splitlines_from (cur @ [c]) (d # ds))"

definition py_splitlines :: "string \<Rightarrow> string list" where
  "py_splitlines s = splitlines_from [] s"

text \<open>\<open>s.split(sep)\<close> for a one-character separator: always at least one field.\<close>

fun split_from :: "char \<Rightarrow> string \<Rightarrow> string \<Rightarrow> string list" where
  "split_from sep cur [] = [cur]"
| "split_from sep cur (c # cs) =
     (if c = sep then cur # split_from sep [] cs else split_from sep (cur @ [c]) cs)"

definition py_split :: "string \<Rightarrow> char \<Rightarrow> string list" where
  "py_split s sep = split_from sep [] s"

text \<open>\<open>sep.join(xs)\<close>\<close>

fun py_join :: "string \<Rightarrow> string list \<Rightarrow> string" where
  "py_join sep [] = []"
| "py_join sep [x] = x"
| "py_join sep (x # y # ys) = x @ sep @ py_join sep (y # ys)"

text \<open>
  \<open>int(s)\<close> for a string: optional surrounding whitespace, an optional sign, then
  decimal digits, where single underscores may stand between digits. Anything else
  raises \<open>ValueError\<close>. (The interpreter's limit on the number of digits of a literal,
  4300 by default, is not modelled: integers are unbounded.)
\<close>

datatype error = ValueError

fun digits_ok :: "string \<Rightarrow> bool" where
  "digits_ok [] = False"
| "digits_ok [c] = is_digit c"
| "digits_ok (c # d # cs) =
     (is_digit c \<and> (if d = CHR ''_'' then digits_ok cs else digits_ok (d # cs)))"

definition nat_of_digits :: "string \<Rightarrow> nat" where
  "nat_of_digits ds = foldl (\<lambda>a c. 10 * a + digit_val c) 0 ds"

definition py_int :: "string \<Rightarrow> error + int" where
  "py_int s =
     (let t = rev (dropWhile is_int_space (rev (dropWhile is_int_space s)));
          neg = (t \<noteq> [] \<and> hd t = CHR ''-'');
          body = (if t \<noteq> [] \<and> (hd t = CHR ''-'' \<or> hd t = CHR ''+'') then tl t else t)
      in if digits_ok body
         then Inr ((if neg then - 1 else 1) *
                   int (nat_of_digits (filter (\<lambda>c. c \<noteq> CHR ''_'') body)))
         else Inl ValueError)"

text \<open>\<open>str(i)\<close> for an integer.\<close>

fun str_nat :: "nat \<Rightarrow> string" where
  "str_nat n = (if n < 10 then [digit_char n] else str_nat (n div 10) @ [digit_char (n mod 10)])"

declare str_nat.simps [simp del]

definition py_str :: "int \<Rightarrow> string" where
  "py_str i = (if i < 0 then CHR ''-'' # str_nat (nat (- i)) else str_nat (nat i))"

section \<open>Telemetry readings\<close>

text \<open>A reading is the dictionary with the keys \<open>index\<close>, \<open>util\<close>, \<open>mem_used\<close> and
  \<open>mem_total\<close> that \<open>_parse_nvidia_smi\<close> builds.\<close>

record gpu =
  index :: int
  util :: int
  mem_used :: int
  mem_total :: int

text \<open>\<open>map(int, parts)\<close>, consumed in order: the first field that is no integer raises.\<close>

fun map_int :: "string list \<Rightarrow> error + int list" where
  "map_int [] = Inr []"
| "map_int (p # ps) =
     (case py_int p of
        Inl e \<Rightarrow> Inl e
      | Inr v \<Rightarrow> (case map_int ps of Inl e \<Rightarrow> Inl e | Inr vs \<Rightarrow> Inr (v # vs)))"

text \<open>The body of the \<open>for\<close> loop of \<open>_parse_nvidia_smi\<close> on one line: \<open>None\<close> is
  \<open>continue\<close>, \<open>Some (Inl e)\<close> is the exception of \<open>int\<close>, \<open>Some (Inr g)\<close> the
  reading that is appended.\<close>

definition parse_line :: "string \<Rightarrow> (error + gpu) option" where
  "parse_line line =
     (let parts = map py_strip (py_split line (CHR '',''))
      in if length parts \<noteq> 4 then None
         else Some (case map_int parts of
                      Inl e \<Rightarrow> Inl e
                    | Inr vs \<Rightarrow>
                        (case vs of
                           [idx, u, mu, mt] \<Rightarrow>
                             Inr \<lparr>index = idx, util = u, mem_used = mu, mem_total = mt\<rparr>
                         | _ \<Rightarrow> Inl ValueError)))"

fun parse_loop :: "gpu list \<Rightarrow> string list \<Rightarrow> error + gpu list" where
  "parse_loop gpus [] = Inr gpus"
| "parse_loop gpus (line # rest) =
     (case parse_line line of
        None \<Rightarrow> parse_loop gpus rest
      | Some (Inl e) \<Rightarrow> Inl e
      | Some (Inr g) \<Rightarrow> parse_loop (gpus @ [g]) rest)"

text \<open>\<open>_parse_nvidia_smi\<close>\<close>

definition parse_nvidia_smi :: "string \<Rightarrow> error + gpu list" where
  "parse_nvidia_smi output = parse_loop [] (py_splitlines (py_strip output))"

text \<open>\<open>_is_gpu_idle\<close>\<close>

definition is_gpu_idle :: "gpu \<Rightarrow> int \<Rightarrow> int \<Rightarrow> bool" where
  "is_gpu_idle g util_th mem_th = (util g \<le> util_th \<and> mem_used g \<le> mem_th)"

section \<open>Command line, environment and the outside world\<close>

text \<open>The namespace that \<open>argparse\<close> returns. The interval is a float that is only
  handed on to \<open>time.sleep\<close>; no arithmetic is done on it. The model covers the
  intervals that \<open>time.sleep\<close> accepts, the finite ones that are not negative, for which
  the call returns; for any other value the call raises at the end of the first cycle
  that reaches it.\<close>

record args =
  interval :: real
  util_th :: int
  mem_th :: int
  once :: bool
  json :: bool
  email :: bool
  email_to :: string
  smtp_host :: string
  smtp_port :: int
  smtp_user :: string
  smtp_pass :: string
  smtp_sender :: string
  smtp_ssl :: bool
  smtp_tls :: bool

text \<open>The defaults of the parser: the namespace of a run without options.\<close>

definition default_args :: args where
  "default_args =
     \<lparr>interval = 5, util_th = 5, mem_th = 500, once = False, json = False,
      email = False, email_to = [], smtp_host = [], smtp_port = 0, smtp_user = [],
      smtp_pass = [], smtp_sender = [], smtp_ssl = False, smtp_tls = False\<rparr>"

text \<open>\<open>os.environ\<close> and \<open>os.getenv(key, default)\<close>. The program never writes the
  environment, so it is the same in every cycle of a run.\<close>

type_synonym environ = "string \<rightharpoonup> string"

definition getenv :: "environ \<Rightarrow> string \<Rightarrow> string \<Rightarrow> string" where
  "getenv env key dflt = (case env key of None \<Rightarrow> dflt | Some v \<Rightarrow> v)"

text \<open>\<open>a or b\<close> on strings: the first operand unless it is empty.\<close>

definition str_or :: "string \<Rightarrow> string \<Rightarrow> string" where
  "str_or a b = (if a \<noteq> [] then a else b)"

text \<open>The keyword arguments of a call of \<open>_send_email\<close>; \<open>None\<close> is Python's \<open>None\<close>.\<close>

record email_call =
  ec_host :: string
  ec_port :: int
  ec_user :: "string option"
  ec_pass :: "string option"
  ec_sender :: string
  ec_recipients :: "string list"
  ec_subject :: string
  ec_body :: string
  ec_use_ssl :: bool
  ec_use_tls :: bool

text \<open>
  What the program does to its collaborators, in order: the call of nvidia-smi, a line
  printed on standard output or on standard error, the bell character written to
  standard output, a call of \<open>_send_email\<close> (the mail transport), and a call of
  \<open>time.sleep\<close>. Writing to the console and sleeping are taken to succeed; the
  calls whose failure the program handles, or fails to handle, have their answers in
  \<open>world\<close> below.
\<close>

datatype event =
    RunNvidiaSmi
  | Print string
  | PrintErr string
  | Bell
  | SendEmail email_call
  | Sleep real

text \<open>
  What the collaborators answer in one cycle: \<open>nvidia_smi\<close> is \<open>Inr\<close> the text that
  \<open>_run_nvidia_smi\<close> returns or \<open>Inl\<close> the text of the exception it raises;
  \<open>smtp_error\<close> is the text of the exception that \<open>_send_email\<close> raises, if it is
  called and raises.
\<close>

record world =
  nvidia_smi :: "string + string"
  smtp_error :: "string option"

text \<open>How one pass through the body of \<open>while True\<close> ends: it falls through to the
  next pass, \<open>main\<close> returns an exit code, or an exception leaves \<open>main\<close>.\<close>

datatype outcome = Continue | Return int | Raise error

section \<open>Reporting\<close>

definition status_line :: "gpu \<Rightarrow> string" where
  "status_line g =
     ''GPU '' @ py_str (index g) @ '': util='' @ py_str (util g) @ ''% mem='' @
     py_str (mem_used g) @ ''/'' @ py_str (mem_total g) @ '' MB''"

text \<open>\<open>json.dumps\<close> of a reading, of a list of readings and of the status object.\<close>

definition json_gpu :: "gpu \<Rightarrow> string" where
  "json_gpu g =
     ''{'' @ [CHR 0x22] @ ''index'' @ [CHR 0x22] @ '': '' @ py_str (index g) @
     '', '' @ [CHR 0x22] @ ''util'' @ [CHR 0x22] @ '': '' @ py_str (util g) @
     '', '' @ [CHR 0x22] @ ''mem_used'' @ [CHR 0x22] @ '': '' @ py_str (mem_used g) @
     '', '' @ [CHR 0x22] @ ''mem_total'' @ [CHR 0x22] @ '': '' @ py_str (mem_total g) @ ''}''"

definition json_gpus :: "gpu list \<Rightarrow> string" where
  "json_gpus gs = ''['' @ py_join '', '' (map json_gpu gs) @ '']''"

definition json_status :: "gpu list \<Rightarrow> gpu list \<Rightarrow> string" where
  "json_status gpus idle =
     ''{'' @ [CHR 0x22] @ ''gpus'' @ [CHR 0x22] @ '': '' @ json_gpus gpus @
     '', '' @ [CHR 0x22] @ ''idle'' @ [CHR 0x22] @ '': '' @ json_gpus idle @ ''}''"

text \<open>Lines 105 to 111 of \<open>main\<close>.\<close>

definition report :: "args \<Rightarrow> gpu list \<Rightarrow> gpu list \<Rightarrow> event list" where
  "report a gpus idle =
     (if json a then [Print (json_status gpus idle)]
      else map (\<lambda>g. Print (status_line g)) gpus)"

text \<open>Line 103: the readings classified idle, in the order of \<open>gpus\<close>.\<close>

definition idle_gpus :: "args \<Rightarrow> gpu list \<Rightarrow> gpu list" where
  "idle_gpus a gpus = filter (\<lambda>g. is_gpu_idle g (util_th a) (mem_th a)) gpus"

text \<open>Line 114.\<close>

definition idle_ids :: "gpu list \<Rightarrow> string" where
  "idle_ids idle = py_join '','' (map (\<lambda>g. py_str (index g)) idle)"

definition alert_line :: "gpu list \<Rightarrow> string" where
  "alert_line idle = ''ALERT: idle GPU(s) detected -> '' @ idle_ids idle"

text \<open>Lines 115 to 120: the alert line and the bell. An exception of the write of the
  bell is swallowed, so the pass goes on in the same way whether or not it is raised.\<close>

definition alert :: "gpu list \<Rightarrow> event list" where
  "alert idle = [Print (alert_line idle), Bell]"

section \<open>Mail\<close>

text \<open>Lines 122 to 127: the SMTP settings, from the command line or else from the
  environment. The conversion of \<open>SMTP_PORT\<close> is the one step that can raise.\<close>

record smtp_config =
  host :: string
  port :: int
  user :: string
  pass :: string
  sender :: string
  recipients :: "string list"

definition resolve_port :: "args \<Rightarrow> environ \<Rightarrow> error + int" where
  "resolve_port a env =
     (if smtp_port a \<noteq> 0 then Inr (smtp_port a)
      else (let s = getenv env ''SMTP_PORT'' ''0''
            in if s \<noteq> [] then py_int s else Inr 0))"

definition resolve_recipients :: "args \<Rightarrow> environ \<Rightarrow> string list" where
  "resolve_recipients a env =
     map py_strip
       (filter (\<lambda>r. py_strip r \<noteq> [])
          (py_split (str_or (email_to a) (getenv env ''SMTP_TO'' [])) (CHR '','')))"

definition resolve_smtp :: "args \<Rightarrow> environ \<Rightarrow> error + smtp_config" where
  "resolve_smtp a env =
     (let h = str_or (smtp_host a) (getenv env ''SMTP_HOST'' [])
      in case resolve_port a env of
           Inl e \<Rightarrow> Inl e
         | Inr p \<Rightarrow>
             (let u = str_or (smtp_user a) (getenv env ''SMTP_USER'' []);
                  pw = str_or (smtp_pass a) (getenv env ''SMTP_PASS'' []);
                  sd = str_or (smtp_sender a) (getenv env ''SMTP_SENDER'' u);
                  rs = resolve_recipients a env
              in Inr \<lparr>host = h, port = p, user = u, pass = pw, sender = sd,
                      recipients = rs\<rparr>))"

text \<open>Line 129: all four settings are truthy.\<close>

definition smtp_complete :: "smtp_config \<Rightarrow> bool" where
  "smtp_complete c = (host c \<noteq> [] \<and> port c \<noteq> 0 \<and> sender c \<noteq> [] \<and> recipients c \<noteq> [])"

text \<open>\<open>x or None\<close>\<close>

definition or_None :: "string \<Rightarrow> string option" where
  "or_None s = (if s \<noteq> [] then Some s else None)"

text \<open>Lines 130 to 146: the call of \<open>_send_email\<close>.\<close>

definition make_call :: "args \<Rightarrow> smtp_config \<Rightarrow> gpu list \<Rightarrow> gpu list \<Rightarrow> email_call" where
  "make_call a c gpus idle =
     \<lparr>ec_host = host c, ec_port = port c, ec_user = or_None (user c),
      ec_pass = or_None (pass c), ec_sender = sender c, ec_recipients = recipients c,
      ec_subject = ''GPU idle alert: '' @ idle_ids idle,
      ec_body = py_join [CHR 0x0A] (map status_line gpus),
      ec_use_ssl = smtp_ssl a, ec_use_tls = smtp_tls a\<rparr>"

text \<open>Lines 122 to 151, the body of \<open>if args.email\<close>: the events, and the exception
  that leaves it, if any. Every exception of \<open>_send_email\<close> is caught.\<close>

definition email_alert ::
  "args \<Rightarrow> environ \<Rightarrow> string option \<Rightarrow> gpu list \<Rightarrow> gpu list \<Rightarrow> event list \<times> error option" where
  "email_alert a env failure gpus idle =
     (case resolve_smtp a env of
        Inl e \<Rightarrow> ([], Some e)
      | Inr c \<Rightarrow>
          if smtp_complete c
          then (case failure of
                  None \<Rightarrow> ([SendEmail (make_call a c gpus idle), Print ''Email alert sent.''], None)
                | Some e \<Rightarrow>
                    ([SendEmail (make_call a c gpus idle), Print (''Email alert failed: '' @ e)],
                     None))
          else ([Print ''Email alert skipped: missing SMTP config.''], None))"

section \<open>The polling loop\<close>

text \<open>The end of a pass that has classified the readings: lines 152 to 158. \<open>code\<close> is
  the exit code of \<open>--once\<close> (0 with an idle device, 1 without).\<close>

definition finish :: "args \<Rightarrow> int \<Rightarrow> event list \<times> outcome" where
  "finish a code = (if once a then ([], Return code) else ([Sleep (interval a)], Continue))"

text \<open>Lines 113 to 158, after the status report.\<close>

definition react :: "args \<Rightarrow> environ \<Rightarrow> string option \<Rightarrow> gpu list \<Rightarrow> gpu list \<Rightarrow> event list \<times> outcome" where
  "react a env failure gpus idle =
     (if idle \<noteq> [] then
        (if email a then
           (case email_alert a env failure gpus idle of
              (evs, Some e) \<Rightarrow> (alert idle @ evs, Raise e)
            | (evs, None) \<Rightarrow> (alert idle @ evs @ fst (finish a 0), snd (finish a 0)))
         else (alert idle @ fst (finish a 0), snd (finish a 0)))
      else finish a 1)"

text \<open>One pass through the body of \<open>while True\<close> (lines 96 to 158).\<close>

definition cycle :: "args \<Rightarrow> environ \<Rightarrow> world \<Rightarrow> event list \<times> outcome" where
  "cycle a env w =
     (case nvidia_smi w of
        Inl e \<Rightarrow> ([RunNvidiaSmi, PrintErr (''ERROR: failed to run nvidia-smi: '' @ e)], Return 2)
      | Inr out \<Rightarrow>
          (case parse_nvidia_smi out of
             Inl e \<Rightarrow> ([RunNvidiaSmi], Raise e)
           | Inr gpus \<Rightarrow>
               (let idle = idle_gpus a gpus;
                    r = react a env (smtp_error w) gpus idle
                in (RunNvidiaSmi # report a gpus idle @ fst r, snd r))))"

text \<open>
  \<open>main\<close> after the parsing of the command line: the loop, run against the answers of
  the collaborators for the first cycles. The result is the events so far and how
  \<open>main\<close> ended; \<open>None\<close> says that the loop is still running after these cycles, about to
  poll again.
\<close>

fun main_loop :: "args \<Rightarrow> environ \<Rightarrow> world list \<Rightarrow> event list \<times> outcome option" where
  "main_loop a env [] = ([], None)"
| "main_loop a env (w # ws) =
     (case cycle a env w of
        (evs, Continue) \<Rightarrow> (evs @ fst (main_loop a env ws), snd (main_loop a env ws))
      | (evs, r) \<Rightarrow> (evs, Some r))"

section \<open>The reading of a well-formed line, in the words of the specification\<close>






section \<open>Observations on a cycle\<close>

text \<open>The devices that a cycle classifies idle: \<open>None\<close> when the cycle gets no
  readings, because nvidia-smi raises or its output does not parse.\<close>

definition classified :: "args \<Rightarrow> world \<Rightarrow> gpu list option" where
  "classified a w =
     (case nvidia_smi w of
        Inl e \<Rightarrow> None
      | Inr out \<Rightarrow>
          (case parse_nvidia_smi out of Inl e \<Rightarrow> None | Inr gpus \<Rightarrow> Some (idle_gpus a gpus)))"

text \<open>The events of an alert: a printed line that starts with the alert text, and the
  bell.\<close>

definition is_alert :: "event \<Rightarrow> bool" where
  "is_alert e =
     (case e of
        Print s \<Rightarrow> take 27 s = ''ALERT: idle GPU(s) detected''
      | Bell \<Rightarrow> True
      | _ \<Rightarrow> False)"

text \<open>The readings that a cycle parses, if it gets that far.\<close>

definition readings :: "world \<Rightarrow> gpu list option" where
  "readings w =
     (case nvidia_smi w of
        Inl e \<Rightarrow> None
      | Inr out \<Rightarrow> (case parse_nvidia_smi out of Inl e \<Rightarrow> None | Inr gpus \<Rightarrow> Some gpus))"

text \<open>A call of the mail transport, and the line printed after the call.\<close>

definition is_send :: "event \<Rightarrow> bool" where
  "is_send e = (case e of SendEmail c \<Rightarrow> True | _ \<Rightarrow> False)"

definition mail_result :: "string option \<Rightarrow> event" where
  "mail_result failure =
     (case failure of None \<Rightarrow> Print ''Email alert sent.''
      | Some e \<Rightarrow> Print (''Email alert failed: '' @ e))"

text \<open>A call of \<open>time.sleep\<close>, and a call of nvidia-smi (the poll that opens a cycle).\<close>

definition is_sleep :: "event \<Rightarrow> bool" where
  "is_sleep e = (case e of Sleep i \<Rightarrow> True | _ \<Rightarrow> False)"

definition is_poll :: "event \<Rightarrow> bool" where
  "is_poll e = (case e of RunNvidiaSmi \<Rightarrow> True | _ \<Rightarrow> False)"

text \<open>Two events of two cycles that differ at most in the answer of the mail transport:
  they are the same event, or each is the line printed after the call of the transport.\<close>

definition same_but_mail_result :: "world \<Rightarrow> world \<Rightarrow> event \<Rightarrow> event \<Rightarrow> bool" where
  "same_but_mail_result w1 w2 e1 e2 =
     (e1 = e2 \<or> (e1 = mail_result (smtp_error w1) \<and> e2 = mail_result (smtp_error w2)))"

section \<open>Classification\<close>

text \<open>
  C1. For every reading and all thresholds \<open>util_th\<close> and \<open>mem_th\<close>, the device is
  classified idle exactly when its utilization is at most \<open>util_th\<close> and its used
  memory is at most \<open>mem_th\<close>; every other device is busy, that is, it is left out of
  the list of idle devices that \<open>main\<close> builds.
\<close>

theorem idle_classification:
  "(is_gpu_idle g u m \<longleftrightarrow> util g \<le> u \<and> mem_used g \<le> m) \<and>
   (g \<in> set (idle_gpus a gpus) \<longleftrightarrow>
      g \<in> set gpus \<and> util g \<le> util_th a \<and> mem_used g \<le> mem_th a)"
  by (auto simp: is_gpu_idle_def idle_gpus_def)

section \<open>The parser\<close>



lemma digit_not_int_space: "is_digit c \<Longrightarrow> \<not> is_int_space c"
  by (auto simp: is_digit_def is_int_space_def Let_def)

lemma digit_not_underscore: "is_digit c \<Longrightarrow> c \<noteq> CHR ''_''"
  by (auto simp: is_digit_def)

lemma sign_not_int_space: "\<not> is_int_space (CHR ''-'')" "\<not> is_int_space (CHR ''+'')"
  by (simp_all add: is_int_space_def)

lemma digits_ok_all: "ds \<noteq> [] \<Longrightarrow> list_all is_digit ds \<Longrightarrow> digits_ok ds"
  by (induction ds rule: digits_ok.induct) (auto simp: digit_not_underscore)

lemma filter_digits: "list_all is_digit ds \<Longrightarrow> filter (\<lambda>c. c \<noteq> CHR ''_'') ds = ds"
  by (induction ds) (auto simp: digit_not_underscore)

lemma dropWhile_rev_last: "t \<noteq> [] \<Longrightarrow> \<not> P (last t) \<Longrightarrow> rev (dropWhile P (rev t)) = t"
  by (cases t rule: rev_cases) auto

lemma dropWhile_hd: "t \<noteq> [] \<Longrightarrow> \<not> P (hd t) \<Longrightarrow> dropWhile P t = t"
  by (cases t) auto












section \<open>The alert\<close>

lemma status_not_alert: "\<not> is_alert (Print (status_line g))"
  by (simp add: is_alert_def status_line_def take_Cons')

lemma json_not_alert: "\<not> is_alert (Print (json_status gpus idle))"
  by (simp add: is_alert_def json_status_def take_Cons')

lemma report_no_alert: "filter is_alert (report a gpus idle) = []"
  by (simp add: report_def status_not_alert json_not_alert filter_empty_conv o_def)

lemma alert_is_alert: "filter is_alert (alert idle) = alert idle"
  by (simp add: alert_def is_alert_def alert_line_def)

lemma finish_no_alert: "filter is_alert (fst (finish a c)) = []"
  by (simp add: finish_def is_alert_def)

lemma email_no_alert: "filter is_alert (fst (email_alert a env f gpus idle)) = []"
  by (simp add: email_alert_def is_alert_def take_Cons' split: sum.splits option.splits)

lemma react_alerts:
  "filter is_alert (fst (react a env f gpus idle)) = (if idle \<noteq> [] then alert idle else [])"
  using email_no_alert[of a env f gpus idle]
  by (auto simp: react_def alert_is_alert finish_no_alert split: prod.splits option.splits)

lemma cycle_alerts:
  "filter is_alert (fst (cycle a env w)) =
     (case classified a w of Some idle \<Rightarrow> if idle \<noteq> [] then alert idle else [] | None \<Rightarrow> [])"
  by (simp add: cycle_def classified_def Let_def is_alert_def report_no_alert react_alerts
           split: sum.splits)


lemma digit_char_digit: "d < 10 \<Longrightarrow> is_digit (digit_char d)"
  by (simp add: is_digit_def digit_char_def)

lemma digit_val_char: "d < 10 \<Longrightarrow> digit_val (digit_char d) = d"
  by (simp add: digit_val_def digit_char_def)

lemma str_nat_digits: "str_nat n \<noteq> [] \<and> list_all is_digit (str_nat n)"
proof (induction n rule: str_nat.induct)
  case (1 n)
  show ?case
  proof (cases "n < 10")
    case True
    then show ?thesis by (subst (1 2) str_nat.simps) (simp add: digit_char_digit)
  next
    case False
    with 1 show ?thesis by (subst (1 2) str_nat.simps) (simp add: digit_char_digit)
  qed
qed

lemma nat_of_digits_snoc: "nat_of_digits (ds @ [c]) = 10 * nat_of_digits ds + digit_val c"
  by (simp add: nat_of_digits_def)

lemma nat_of_digits_str_nat: "nat_of_digits (str_nat n) = n"
proof (induction n rule: str_nat.induct)
  case (1 n)
  show ?case
  proof (cases "n < 10")
    case True
    then show ?thesis
      by (subst str_nat.simps) (simp add: nat_of_digits_def digit_val_char)
  next
    case False
    with 1 show ?thesis
      by (subst str_nat.simps) (simp add: nat_of_digits_snoc digit_val_char)
  qed
qed

lemma digit_not_sign: "is_digit c \<Longrightarrow> c \<noteq> CHR ''-'' \<and> c \<noteq> CHR ''+''"
  by (auto simp: is_digit_def)

lemma str_nat_ends:
  "is_digit (hd (str_nat n))" "is_digit (last (str_nat n))"
  using str_nat_digits[of n] by (cases "str_nat n"; auto simp: list_all_iff)+

lemma py_int_py_str: "py_int (py_str i) = Inr i"
proof -
  let ?t = "py_str i"
  have ne: "?t \<noteq> []" using str_nat_digits by (simp add: py_str_def)
  have h: "\<not> is_int_space (hd ?t)"
    using str_nat_ends(1) by (simp add: py_str_def sign_not_int_space digit_not_int_space)
  have l: "\<not> is_int_space (last ?t)"
    using str_nat_ends(2) str_nat_digits by (simp add: py_str_def digit_not_int_space)
  have 1: "rev (dropWhile is_int_space (rev (dropWhile is_int_space ?t))) = ?t"
    using ne h l by (simp add: dropWhile_hd dropWhile_rev_last)
  show ?thesis
  proof (cases "i < 0")
    case True
    then have t: "?t = CHR ''-'' # str_nat (nat (- i))" by (simp add: py_str_def)
    show ?thesis unfolding py_int_def 1 using True str_nat_digits[of "nat (- i)"]
      by (simp add: t Let_def digits_ok_all filter_digits nat_of_digits_str_nat)
  next
    case False
    then have t: "?t = str_nat (nat i)" by (simp add: py_str_def)
    have "hd (str_nat (nat i)) \<noteq> CHR ''-''" "hd (str_nat (nat i)) \<noteq> CHR ''+''"
      using str_nat_ends(1)[of "nat i"] digit_not_sign by blast+
    then show ?thesis unfolding py_int_def 1 using False str_nat_digits[of "nat i"]
      by (simp add: t Let_def digits_ok_all filter_digits nat_of_digits_str_nat)
  qed
qed

lemma split_from_nosep: "sep \<notin> set x \<Longrightarrow> split_from sep cur x = [cur @ x]"
  by (induction x arbitrary: cur) auto

lemma split_from_sep:
  "sep \<notin> set x \<Longrightarrow> split_from sep cur (x @ sep # rest) = (cur @ x) # split_from sep [] rest"
  by (induction x arbitrary: cur) auto

lemma split_join:
  "xs \<noteq> [] \<Longrightarrow> \<forall>x\<in>set xs. sep \<notin> set x \<Longrightarrow> py_split (py_join [sep] xs) sep = xs"
proof (induction "[sep]" xs rule: py_join.induct)
  case 1
  then show ?case by simp
next
  case (2 x)
  then show ?case by (simp add: py_split_def split_from_nosep)
next
  case (3 x y ys)
  then show ?case by (simp add: py_split_def split_from_sep)
qed

lemma digit_not_comma: "is_digit c \<Longrightarrow> c \<noteq> CHR '',''"
  by (auto simp: is_digit_def)

lemma py_str_no_comma: "CHR '','' \<notin> set (py_str i)"
  using str_nat_digits digit_not_comma by (auto simp: py_str_def list_all_iff)

lemma idle_ids_decode:
  assumes "idle \<noteq> []"
  shows "map py_int (py_split (idle_ids idle) (CHR '','')) = map (\<lambda>g. Inr (index g)) idle"
proof -
  have "py_split (idle_ids idle) (CHR '','') = map (\<lambda>g. py_str (index g)) idle"
    unfolding idle_ids_def using assms by (intro split_join) (auto simp: py_str_no_comma)
  then show ?thesis by (simp add: py_int_py_str o_def)
qed


text \<open>
  C2. In every check cycle the alert, that is the line \<open>ALERT: idle GPU(s) detected\<close>
  together with the bell, is raised exactly when at least one parsed device is
  classified idle in that cycle. The line lists the indices of the idle devices, which
  are the parsed devices within both thresholds in the order in which they were parsed,
  separated by commas, so that the list reads back as exactly these indices.
\<close>

theorem alert_iff_idle:
  "filter is_alert (fst (cycle a env w)) =
     (case classified a w of
        None \<Rightarrow> []
      | Some idle \<Rightarrow>
          if idle = [] then []
          else [Print (''ALERT: idle GPU(s) detected -> '' @
                       py_join '','' (map (\<lambda>g. py_str (index g)) idle)), Bell]) \<and>
   (list_ex is_alert (fst (cycle a env w)) \<longleftrightarrow>
      (\<exists>idle. classified a w = Some idle \<and> idle \<noteq> [])) \<and>
   (nvidia_smi w = Inr out \<and> parse_nvidia_smi out = Inr gpus \<longrightarrow>
      classified a w =
        Some (filter (\<lambda>g. util g \<le> util_th a \<and> mem_used g \<le> mem_th a) gpus)) \<and>
   ((idle :: gpu list) \<noteq> [] \<longrightarrow>
      map py_int (py_split (py_join '','' (map (\<lambda>g. py_str (index g)) idle)) (CHR '','')) =
      map (\<lambda>g. Inr (index g)) idle)"
proof (intro conjI impI)
  show 1: "filter is_alert (fst (cycle a env w)) =
     (case classified a w of
        None \<Rightarrow> []
      | Some idle \<Rightarrow>
          if idle = [] then []
          else [Print (''ALERT: idle GPU(s) detected -> '' @
                       py_join '','' (map (\<lambda>g. py_str (index g)) idle)), Bell])"
    by (simp add: cycle_alerts alert_def alert_line_def idle_ids_def split: option.splits)
  have "list_ex is_alert (fst (cycle a env w)) \<longleftrightarrow> filter is_alert (fst (cycle a env w)) \<noteq> []"
    by (simp add: list_ex_iff filter_empty_conv)
  then show "list_ex is_alert (fst (cycle a env w)) \<longleftrightarrow>
      (\<exists>idle. classified a w = Some idle \<and> idle \<noteq> [])"
    unfolding 1 by (auto split: option.splits)
next
  assume "nvidia_smi w = Inr out \<and> parse_nvidia_smi out = Inr gpus"
  then show "classified a w =
        Some (filter (\<lambda>g. util g \<le> util_th a \<and> mem_used g \<le> mem_th a) gpus)"
    by (simp add: classified_def idle_gpus_def is_gpu_idle_def)
next
  assume "idle \<noteq> []"
  then show "map py_int (py_split (py_join '','' (map (\<lambda>g. py_str (index g)) idle)) (CHR '','')) =
      map (\<lambda>g. Inr (index g)) idle"
    using idle_ids_decode by (simp add: idle_ids_def)
qed

theorem alert_iff_idle_witness:
  "nvidia_smi \<lparr>nvidia_smi = Inr ''0, 5, 100, 8000\<newline>1, 50, 2000, 8000\<newline>2, 0, 0, 8000\<newline>'',
               smtp_error = None\<rparr> =
     Inr ''0, 5, 100, 8000\<newline>1, 50, 2000, 8000\<newline>2, 0, 0, 8000\<newline>'' \<and>
   parse_nvidia_smi ''0, 5, 100, 8000\<newline>1, 50, 2000, 8000\<newline>2, 0, 0, 8000\<newline>'' =
     Inr [\<lparr>index = 0, util = 5, mem_used = 100, mem_total = 8000\<rparr>,
          \<lparr>index = 1, util = 50, mem_used = 2000, mem_total = 8000\<rparr>,
          \<lparr>index = 2, util = 0, mem_used = 0, mem_total = 8000\<rparr>] \<and>
   [\<lparr>index = 0, util = 5, mem_used = 100, mem_total = 8000\<rparr>,
    \<lparr>index = 2, util = 0, mem_used = 0, mem_total = 8000\<rparr>] \<noteq> [] \<and>
   filter is_alert
     (fst (cycle default_args Map.empty
        \<lparr>nvidia_smi = Inr ''0, 5, 100, 8000\<newline>1, 50, 2000, 8000\<newline>2, 0, 0, 8000\<newline>'',
         smtp_error = None\<rparr>)) =
     [Print ''ALERT: idle GPU(s) detected -> 0,2'', Bell] \<and>
   map py_int (py_split ''0,2'' (CHR '','')) = [Inr 0, Inr 2]"
proof -
  let ?out = "''0, 5, 100, 8000\<newline>1, 50, 2000, 8000\<newline>2, 0, 0, 8000\<newline>''"
  let ?w = "\<lparr>nvidia_smi = Inr ?out, smtp_error = None\<rparr>"
  let ?g0 = "\<lparr>index = 0, util = 5, mem_used = 100, mem_total = 8000\<rparr>"
  let ?g1 = "\<lparr>index = 1, util = 50, mem_used = 2000, mem_total = 8000\<rparr>"
  let ?g2 = "\<lparr>index = 2, util = 0, mem_used = 0, mem_total = 8000\<rparr>"
  have p: "parse_nvidia_smi ?out = Inr [?g0, ?g1, ?g2]"
    by code_simp
  have c: "classified default_args ?w = Some [?g0, ?g2]"
    by (simp add: classified_def p idle_gpus_def is_gpu_idle_def default_args_def)
  have j: "py_join '','' (map (\<lambda>g. py_str (index g)) [?g0, ?g2]) = ''0,2''"
    by code_simp
  from alert_iff_idle [of default_args Map.empty ?w ?out "[?g0, ?g1, ?g2]" "[?g0, ?g2]"] p c j
  show ?thesis by (simp add: default_args_def)
qed

section \<open>Mail\<close>

lemma is_send_simps [simp]:
  "is_send (SendEmail c)" "\<not> is_send (Print s)" "\<not> is_send (PrintErr s)"
  "\<not> is_send RunNvidiaSmi" "\<not> is_send Bell" "\<not> is_send (Sleep i)"
  by (simp_all add: is_send_def)

lemma report_no_send: "\<not> list_ex is_send (report a gpus idle)"
  by (simp add: report_def list_ex_iff)



lemma email_alert_cases:
  "email_alert a env f gpus idle =
     (case resolve_smtp a env of
        Inl e \<Rightarrow> ([], Some e)
      | Inr c \<Rightarrow>
          if smtp_complete c then ([SendEmail (make_call a c gpus idle), mail_result f], None)
          else ([Print ''Email alert skipped: missing SMTP config.''], None))"
  by (simp add: email_alert_def mail_result_def split: sum.splits option.splits)

lemma readings_Some:
  "readings w = Some gpus \<longleftrightarrow>
     (\<exists>out. nvidia_smi w = Inr out \<and> parse_nvidia_smi out = Inr gpus)"
  by (auto simp: readings_def split: sum.splits)

lemma classified_readings: "classified a w = map_option (idle_gpus a) (readings w)"
  by (simp add: classified_def readings_def split: sum.splits)

lemma cycle_checked:
  assumes "readings w = Some gpus"
  shows "cycle a env w =
           (RunNvidiaSmi # report a gpus (idle_gpus a gpus) @
              fst (react a env (smtp_error w) gpus (idle_gpus a gpus)),
            snd (react a env (smtp_error w) gpus (idle_gpus a gpus)))"
  using assms by (auto simp: cycle_def Let_def readings_Some)



lemma react_complete:
  assumes "idle \<noteq> []" "email a" "resolve_smtp a env = Inr c" "smtp_complete c"
  shows "react a env f gpus idle =
           (alert idle @ [SendEmail (make_call a c gpus idle), mail_result f] @ fst (finish a 0),
            snd (finish a 0))"
  using assms by (simp add: react_def email_alert_cases)











section \<open>Resolution of the SMTP settings\<close>

lemma py_int_zero: "py_int ''0'' = Inr 0"
  by code_simp

lemma getenv_case: "getenv env k d = (case env k of None \<Rightarrow> d | Some v \<Rightarrow> v)"
  by (simp add: getenv_def)

lemma resolve_smtp_Inl: "resolve_smtp a env = Inl e \<longleftrightarrow> resolve_port a env = Inl e"
  by (simp add: resolve_smtp_def Let_def split: sum.splits)

text \<open>
  C10. The resolution of the SMTP settings gives the command line precedence over the
  environment. For each of host, port, user, password, sender and recipients the
  command-line value is used when it is non-empty (for the port: non-zero), and
  otherwise the environment variable \<open>SMTP_HOST\<close>, \<open>SMTP_PORT\<close>, \<open>SMTP_USER\<close>,
  \<open>SMTP_PASS\<close>, \<open>SMTP_SENDER\<close> or \<open>SMTP_TO\<close> (an unset variable counts as empty, an
  unset or empty port as 0). When neither \<open>--smtp_sender\<close> nor \<open>SMTP_SENDER\<close> is set,
  the sender is the resolved user. The resolution raises exactly when the conversion
  of the port raises.
\<close>

theorem smtp_resolution:
  "resolve_port a env =
     (if smtp_port a \<noteq> 0 then Inr (smtp_port a)
      else case env ''SMTP_PORT'' of
             None \<Rightarrow> Inr 0
           | Some s \<Rightarrow> if s = [] then Inr 0 else py_int s) \<and>
   (resolve_smtp a env = Inr c \<longrightarrow>
      host c = (if smtp_host a \<noteq> [] then smtp_host a
                else case env ''SMTP_HOST'' of None \<Rightarrow> [] | Some v \<Rightarrow> v) \<and>
      resolve_port a env = Inr (port c) \<and>
      user c = (if smtp_user a \<noteq> [] then smtp_user a
                else case env ''SMTP_USER'' of None \<Rightarrow> [] | Some v \<Rightarrow> v) \<and>
      pass c = (if smtp_pass a \<noteq> [] then smtp_pass a
                else case env ''SMTP_PASS'' of None \<Rightarrow> [] | Some v \<Rightarrow> v) \<and>
      sender c = (if smtp_sender a \<noteq> [] then smtp_sender a
                  else case env ''SMTP_SENDER'' of None \<Rightarrow> user c | Some v \<Rightarrow> v) \<and>
      recipients c =
        map py_strip
          (filter (\<lambda>r. py_strip r \<noteq> [])
             (py_split (if email_to a \<noteq> [] then email_to a
                        else case env ''SMTP_TO'' of None \<Rightarrow> [] | Some v \<Rightarrow> v) (CHR '','')))) \<and>
   (resolve_smtp a env = Inl e \<longleftrightarrow> resolve_port a env = Inl e)"
proof (intro conjI impI)
  show "resolve_port a env =
     (if smtp_port a \<noteq> 0 then Inr (smtp_port a)
      else case env ''SMTP_PORT'' of
             None \<Rightarrow> Inr 0
           | Some s \<Rightarrow> if s = [] then Inr 0 else py_int s)"
    by (simp add: resolve_port_def getenv_case py_int_zero split: option.splits)
  show "resolve_smtp a env = Inl e \<longleftrightarrow> resolve_port a env = Inl e"
    by (rule resolve_smtp_Inl)
next
  assume r: "resolve_smtp a env = Inr c"
  then obtain p where p: "resolve_port a env = Inr p"
    by (cases "resolve_port a env") (simp_all add: resolve_smtp_def)
  from r have c: "c = \<lparr>host = str_or (smtp_host a) (getenv env ''SMTP_HOST'' []), port = p,
        user = str_or (smtp_user a) (getenv env ''SMTP_USER'' []),
        pass = str_or (smtp_pass a) (getenv env ''SMTP_PASS'' []),
        sender = str_or (smtp_sender a)
                   (getenv env ''SMTP_SENDER'' (str_or (smtp_user a) (getenv env ''SMTP_USER'' []))),
        recipients = resolve_recipients a env\<rparr>"
    by (simp add: resolve_smtp_def p Let_def)
  show "host c = (if smtp_host a \<noteq> [] then smtp_host a
                else case env ''SMTP_HOST'' of None \<Rightarrow> [] | Some v \<Rightarrow> v)"
    by (simp add: c str_or_def getenv_case)
  show "resolve_port a env = Inr (port c)" by (simp add: c p)
  show "user c = (if smtp_user a \<noteq> [] then smtp_user a
                else case env ''SMTP_USER'' of None \<Rightarrow> [] | Some v \<Rightarrow> v)"
    by (simp add: c str_or_def getenv_case)
  show "pass c = (if smtp_pass a \<noteq> [] then smtp_pass a
                else case env ''SMTP_PASS'' of None \<Rightarrow> [] | Some v \<Rightarrow> v)"
    by (simp add: c str_or_def getenv_case)
  show "sender c = (if smtp_sender a \<noteq> [] then smtp_sender a
                  else case env ''SMTP_SENDER'' of None \<Rightarrow> user c | Some v \<Rightarrow> v)"
    by (simp add: c str_or_def getenv_case split: option.splits)
  show "recipients c =
        map py_strip
          (filter (\<lambda>r. py_strip r \<noteq> [])
             (py_split (if email_to a \<noteq> [] then email_to a
                        else case env ''SMTP_TO'' of None \<Rightarrow> [] | Some v \<Rightarrow> v) (CHR '','')))"
    by (simp add: c resolve_recipients_def str_or_def getenv_case)
qed

theorem smtp_resolution_witness:
  "resolve_smtp (default_args\<lparr>smtp_host := ''cli''\<rparr>)
     [''SMTP_HOST'' \<mapsto> ''envhost'', ''SMTP_PORT'' \<mapsto> ''587'', ''SMTP_USER'' \<mapsto> ''u'',
      ''SMTP_TO'' \<mapsto> ''a@x, b@x''] =
     Inr \<lparr>host = ''cli'', port = 587, user = ''u'', pass = [], sender = ''u'',
          recipients = [''a@x'', ''b@x'']\<rparr> \<and>
   resolve_port (default_args\<lparr>smtp_host := ''cli''\<rparr>)
     [''SMTP_HOST'' \<mapsto> ''envhost'', ''SMTP_PORT'' \<mapsto> ''587'', ''SMTP_USER'' \<mapsto> ''u'',
      ''SMTP_TO'' \<mapsto> ''a@x, b@x''] = Inr 587"
proof -
  let ?a = "default_args\<lparr>smtp_host := ''cli''\<rparr>"
  let ?env = "[''SMTP_HOST'' \<mapsto> ''envhost'', ''SMTP_PORT'' \<mapsto> ''587'', ''SMTP_USER'' \<mapsto> ''u'',
      ''SMTP_TO'' \<mapsto> ''a@x, b@x'']"
  let ?c = "\<lparr>host = ''cli'', port = 587, user = ''u'', pass = [], sender = ''u'',
          recipients = [''a@x'', ''b@x'']\<rparr>"
  have r: "resolve_smtp ?a ?env = Inr ?c"
    by code_simp
  from smtp_resolution [of ?a ?env ?c] r have "resolve_port ?a ?env = Inr (port ?c)"
    by blast
  with r show ?thesis by simp
qed

section \<open>Exit codes\<close>

lemma error_eq: "(e :: error) = ValueError"
  by (cases e) simp

lemma finish_outcome: "snd (finish a c) = (if once a then Return c else Continue)"
  by (simp add: finish_def)

lemma react_outcome:
  "snd (react a env f gpus idle) =
     (if idle \<noteq> [] \<and> email a \<and> isl (resolve_port a env) then Raise ValueError
      else if once a then Return (if idle \<noteq> [] then 0 else 1)
      else Continue)"
proof (cases "resolve_smtp a env")
  case (Inl e)
  then have "isl (resolve_port a env)" by (simp add: resolve_smtp_Inl)
  with Inl show ?thesis
    by (simp add: react_def email_alert_cases finish_outcome error_eq[of e])
next
  case (Inr c)
  then have "\<not> isl (resolve_port a env)"
    by (cases "resolve_port a env") (simp_all add: resolve_smtp_def)
  with Inr show ?thesis
    by (simp add: react_def email_alert_cases finish_outcome)
qed

lemma cycle_outcome:
  "snd (cycle a env w) =
     (case nvidia_smi w of
        Inl e \<Rightarrow> Return 2
      | Inr out \<Rightarrow>
          (case readings w of
             None \<Rightarrow> Raise ValueError
           | Some gpus \<Rightarrow>
               if idle_gpus a gpus \<noteq> [] \<and> email a \<and> isl (resolve_port a env)
               then Raise ValueError
               else if once a then Return (if idle_gpus a gpus \<noteq> [] then 0 else 1)
               else Continue))"
  by (simp add: cycle_def readings_def react_outcome Let_def error_eq split: sum.splits)

lemma main_loop_first:
  "main_loop a env (w # ws) =
     (if snd (cycle a env w) = Continue
      then (fst (cycle a env w) @ fst (main_loop a env ws), snd (main_loop a env ws))
      else (fst (cycle a env w), Some (snd (cycle a env w))))"
  by (cases "cycle a env w"; cases "snd (cycle a env w)"; simp)

lemma main_loop_append:
  "main_loop a env (ws @ ws') =
     (case snd (main_loop a env ws) of
        None \<Rightarrow> (fst (main_loop a env ws) @ fst (main_loop a env ws'), snd (main_loop a env ws'))
      | Some r \<Rightarrow> main_loop a env ws)"
proof (induction ws)
  case Nil
  show ?case by simp
next
  case (Cons w ws)
  show ?case
    unfolding append_Cons main_loop_first[of a env w] Cons.IH
    by (simp split: option.splits)
qed

text \<open>
  C8, amended. With \<open>--once\<close>, \<open>main\<close> returns 0 exactly when the single check
  classifies at least one GPU as idle and, if \<open>--email\<close> is set, the SMTP port resolves
  without an error; it returns 1 exactly when the check gets and parses the telemetry and
  classifies no GPU as idle. In any mode and in any cycle, if the call of nvidia-smi
  raises, \<open>main\<close> prints an error on standard error and returns 2, and prints no GPU
  status in that cycle.
\<close>

theorem exit_codes:
  "(once a \<longrightarrow>
      (snd (main_loop a env (w # ws)) = Some (Return 0) \<longleftrightarrow>
         (\<exists>idle. classified a w = Some idle \<and> idle \<noteq> [] \<and>
                 (email a \<longrightarrow> (\<exists>p. resolve_port a env = Inr p)))) \<and>
      (snd (main_loop a env (w # ws)) = Some (Return 1) \<longleftrightarrow> classified a w = Some [])) \<and>
   (nvidia_smi w = Inl e \<longrightarrow>
      cycle a env w =
        ([RunNvidiaSmi, PrintErr (''ERROR: failed to run nvidia-smi: '' @ e)], Return 2) \<and>
      (snd (main_loop a env ws) = None \<longrightarrow>
         main_loop a env (ws @ [w]) =
           (fst (main_loop a env ws) @
              [RunNvidiaSmi, PrintErr (''ERROR: failed to run nvidia-smi: '' @ e)],
            Some (Return 2))))"
proof (intro conjI impI)
  assume o: "once a"
  have ne: "snd (cycle a env w) \<noteq> Continue"
    using o by (simp add: cycle_outcome split: sum.splits option.splits)
  then have m: "snd (main_loop a env (w # ws)) = Some (snd (cycle a env w))"
    by (simp add: main_loop_first del: main_loop.simps)
  show "snd (main_loop a env (w # ws)) = Some (Return 0) \<longleftrightarrow>
         (\<exists>idle. classified a w = Some idle \<and> idle \<noteq> [] \<and>
                 (email a \<longrightarrow> (\<exists>p. resolve_port a env = Inr p)))"
    unfolding m using o
    by (cases "resolve_port a env")
       (auto simp: cycle_outcome classified_readings readings_def split: sum.splits option.splits)
  show "snd (main_loop a env (w # ws)) = Some (Return 1) \<longleftrightarrow> classified a w = Some []"
    unfolding m using o
    by (auto simp: cycle_outcome classified_readings readings_def split: sum.splits option.splits)
next
  assume f: "nvidia_smi w = Inl e"
  then show c: "cycle a env w =
        ([RunNvidiaSmi, PrintErr (''ERROR: failed to run nvidia-smi: '' @ e)], Return 2)"
    by (simp add: cycle_def)
  assume "snd (main_loop a env ws) = None"
  then show "main_loop a env (ws @ [w]) =
           (fst (main_loop a env ws) @
              [RunNvidiaSmi, PrintErr (''ERROR: failed to run nvidia-smi: '' @ e)],
            Some (Return 2))"
    by (simp add: main_loop_append main_loop_first c del: main_loop.simps)
qed

theorem exit_codes_witness:
  "once (default_args\<lparr>once := True\<rparr>) \<and>
   classified (default_args\<lparr>once := True\<rparr>)
     \<lparr>nvidia_smi = Inr ''0, 0, 0, 100'', smtp_error = None\<rparr> =
     Some [\<lparr>index = 0, util = 0, mem_used = 0, mem_total = 100\<rparr>] \<and>
   snd (main_loop (default_args\<lparr>once := True\<rparr>) Map.empty
          [\<lparr>nvidia_smi = Inr ''0, 0, 0, 100'', smtp_error = None\<rparr>]) = Some (Return 0) \<and>
   nvidia_smi \<lparr>nvidia_smi = Inl ''not found'', smtp_error = None\<rparr> = Inl ''not found'' \<and>
   snd (main_loop default_args Map.empty
          [\<lparr>nvidia_smi = Inr ''0, 90, 4000, 8000'', smtp_error = None\<rparr>]) = None \<and>
   snd (main_loop default_args Map.empty
          ([\<lparr>nvidia_smi = Inr ''0, 90, 4000, 8000'', smtp_error = None\<rparr>] @
           [\<lparr>nvidia_smi = Inl ''not found'', smtp_error = None\<rparr>])) = Some (Return 2)"
proof -
  let ?a = "default_args\<lparr>once := True\<rparr>"
  let ?w = "\<lparr>nvidia_smi = Inr ''0, 0, 0, 100'', smtp_error = None\<rparr>"
  let ?b = "\<lparr>nvidia_smi = Inr ''0, 90, 4000, 8000'', smtp_error = None\<rparr>"
  let ?f = "\<lparr>nvidia_smi = Inl ''not found'', smtp_error = None\<rparr>"
  have o: "once ?a" by simp
  have e: "\<not> email ?a" by (simp add: default_args_def)
  have c: "classified ?a ?w = Some [\<lparr>index = 0, util = 0, mem_used = 0, mem_total = 100\<rparr>]"
    by code_simp
  have rb: "readings ?b = Some [\<lparr>index = 0, util = 90, mem_used = 4000, mem_total = 8000\<rparr>]"
    by code_simp
  have n: "snd (main_loop default_args Map.empty [?b]) = None"
    by (simp add: main_loop_first cycle_outcome rb idle_gpus_def is_gpu_idle_def default_args_def
             del: main_loop.simps(2))
  have f: "nvidia_smi ?f = Inl ''not found''" by simp
  from exit_codes [of ?a Map.empty ?w "[]"] o e c
  have 1: "snd (main_loop ?a Map.empty [?w]) = Some (Return 0)" by simp
  from exit_codes [of default_args Map.empty ?f "[?b]" "''not found''"] f n
  have 2: "snd (main_loop default_args Map.empty ([?b] @ [?f])) = Some (Return 2)"
    by (simp del: main_loop.simps(2))
  from o c 1 f n 2 show ?thesis by blast
qed

text \<open>
  C8, as it is stated: with \<open>--once\<close>, \<open>main\<close> returns 0 exactly when the single check
  classifies at least one GPU as idle. This fails for a run with \<open>--once --email\<close>,
  \<open>SMTP_PORT=abc\<close> in the environment and the telemetry \<open>0, 0, 0, 100\<close>: GPU 0 is
  classified idle, the alert is raised, and then the conversion of the port at line 123
  raises \<open>ValueError\<close>, which nothing catches, so that \<open>main\<close> does not return 0.
\<close>

theorem exit_code_counterexample:
  "\<not> (once (default_args\<lparr>once := True, email := True\<rparr>) \<longrightarrow>
        (snd (main_loop (default_args\<lparr>once := True, email := True\<rparr>) [''SMTP_PORT'' \<mapsto> ''abc'']
                [\<lparr>nvidia_smi = Inr ''0, 0, 0, 100'', smtp_error = None\<rparr>]) = Some (Return 0) \<longleftrightarrow>
         (\<exists>idle. classified (default_args\<lparr>once := True, email := True\<rparr>)
                   \<lparr>nvidia_smi = Inr ''0, 0, 0, 100'', smtp_error = None\<rparr> = Some idle \<and>
                 idle \<noteq> [])))"
proof -
  let ?a = "default_args\<lparr>once := True, email := True\<rparr>"
  let ?w = "\<lparr>nvidia_smi = Inr ''0, 0, 0, 100'', smtp_error = None\<rparr>"
  have c: "classified ?a ?w = Some [\<lparr>index = 0, util = 0, mem_used = 0, mem_total = 100\<rparr>]"
    by code_simp
  have m: "snd (main_loop ?a [''SMTP_PORT'' \<mapsto> ''abc''] [?w]) = Some (Raise ValueError)"
    by code_simp
  have o: "once ?a" by simp
  show ?thesis unfolding m c using o by simp
qed

section \<open>The polling loop\<close>

declare main_loop.simps(2) [simp del]

lemma is_sleep_simps [simp]:
  "is_sleep (Sleep i)" "\<not> is_sleep (Print s)" "\<not> is_sleep (PrintErr s)"
  "\<not> is_sleep RunNvidiaSmi" "\<not> is_sleep Bell" "\<not> is_sleep (SendEmail c)"
  "\<not> is_sleep (mail_result f)"
  by (simp_all add: is_sleep_def mail_result_def split: option.splits)

lemma is_poll_simps [simp]:
  "is_poll RunNvidiaSmi" "\<not> is_poll (Print s)" "\<not> is_poll (PrintErr s)"
  "\<not> is_poll (Sleep i)" "\<not> is_poll Bell" "\<not> is_poll (SendEmail c)"
  "\<not> is_poll (mail_result f)"
  by (simp_all add: is_poll_def mail_result_def split: option.splits)

lemma report_quiet: "filter is_sleep (report a gpus idle) = []" "filter is_poll (report a gpus idle) = []"
  by (simp_all add: report_def filter_empty_conv)

lemma alert_quiet: "filter is_sleep (alert idle) = []" "filter is_poll (alert idle) = []"
  by (simp_all add: alert_def)

lemma email_alert_quiet:
  "filter is_sleep (fst (email_alert a env f gpus idle)) = []"
  "filter is_poll (fst (email_alert a env f gpus idle)) = []"
  by (simp_all add: email_alert_cases split: sum.splits)

lemma finish_sleeps:
  "filter is_sleep (fst (finish a c)) = (if snd (finish a c) = Continue then [Sleep (interval a)] else [])"
  "filter is_poll (fst (finish a c)) = []"
  by (simp_all add: finish_def)

lemma finish_last: "snd (finish a c) = Continue \<Longrightarrow> fst (finish a c) = [Sleep (interval a)]"
  by (simp add: finish_def split: if_splits)


lemma react_polls: "filter is_poll (fst (react a env f gpus idle)) = []"
  using email_alert_quiet(2)[of a env f gpus idle]
  by (auto simp: react_def alert_quiet finish_sleeps split: prod.splits option.splits)



lemma cycle_polls: "filter is_poll (fst (cycle a env w)) = [RunNvidiaSmi]"
proof (cases "readings w")
  case None
  then show ?thesis
    by (auto simp: cycle_def readings_def split: sum.splits)
next
  case (Some gpus)
  show ?thesis by (simp add: cycle_checked[OF Some] report_quiet react_polls)
qed



lemma main_loop_running:
  "snd (main_loop a env ws) = None \<longleftrightarrow> (\<forall>w\<in>set ws. snd (cycle a env w) = Continue)"
  by (induction ws) (simp_all add: main_loop_first del: main_loop.simps(2))





lemma main_loop_polls:
  "snd (main_loop a env ws) = None \<Longrightarrow>
     length (filter is_poll (fst (main_loop a env ws))) = length ws"
  by (induction ws)
     (simp_all add: main_loop_first cycle_polls del: main_loop.simps(2) split: if_splits)



lemma busy_readings:
  "readings \<lparr>nvidia_smi = Inr ''0, 90, 4000, 8000'', smtp_error = None\<rparr> =
     Some [\<lparr>index = 0, util = 90, mem_used = 4000, mem_total = 8000\<rparr>]"
  by code_simp

lemma busy_continues:
  "snd (cycle default_args Map.empty \<lparr>nvidia_smi = Inr ''0, 90, 4000, 8000'', smtp_error = None\<rparr>)
     = Continue"
  by (simp add: cycle_outcome busy_readings idle_gpus_def is_gpu_idle_def default_args_def)






lemma readings_cong: "nvidia_smi w1 = nvidia_smi w2 \<Longrightarrow> readings w1 = readings w2"
  by (simp add: readings_def)

lemma same_refl: "list_all2 (same_but_mail_result w1 w2) xs xs"
  by (simp add: list_all2_refl same_but_mail_result_def)

lemma react_same:
  "list_all2 (same_but_mail_result w1 w2)
     (fst (react a env (smtp_error w1) gpus idle)) (fst (react a env (smtp_error w2) gpus idle))"
proof (cases "idle \<noteq> [] \<and> email a \<and> (\<exists>c. resolve_smtp a env = Inr c \<and> smtp_complete c)")
  case True
  then obtain c where c: "idle \<noteq> []" "email a" "resolve_smtp a env = Inr c" "smtp_complete c"
    by blast
  have "list_all2 (same_but_mail_result w1 w2)
          (alert idle @ [SendEmail (make_call a c gpus idle), mail_result (smtp_error w1)] @
             fst (finish a 0))
          (alert idle @ [SendEmail (make_call a c gpus idle), mail_result (smtp_error w2)] @
             fst (finish a 0))"
    by (intro list_all2_appendI same_refl) (simp add: same_but_mail_result_def)
  then show ?thesis by (simp add: react_complete[OF c])
next
  case False
  then have "react a env (smtp_error w1) gpus idle = react a env (smtp_error w2) gpus idle"
    by (auto simp: react_def email_alert_cases split: sum.splits)
  then show ?thesis by (simp add: same_refl)
qed

lemma react_before_send:
  "takeWhile (\<lambda>e. \<not> is_send e) (fst (react a env f1 gpus idle)) =
   takeWhile (\<lambda>e. \<not> is_send e) (fst (react a env f2 gpus idle))"
  by (auto simp: react_def email_alert_cases alert_def split: sum.splits)

lemma react_outcome_same:
  "snd (react a env f1 gpus idle) = snd (react a env f2 gpus idle)"
  by (simp add: react_outcome)

lemma cycle_same:
  assumes "nvidia_smi w1 = nvidia_smi w2"
  shows "list_all2 (same_but_mail_result w1 w2) (fst (cycle a env w1)) (fst (cycle a env w2))"
    and "takeWhile (\<lambda>e. \<not> is_send e) (fst (cycle a env w1)) =
         takeWhile (\<lambda>e. \<not> is_send e) (fst (cycle a env w2))"
    and "snd (cycle a env w1) = snd (cycle a env w2)"
    and "classified a w1 = classified a w2"
    and "filter is_alert (fst (cycle a env w1)) = filter is_alert (fst (cycle a env w2))"
proof -
  have r: "readings w1 = readings w2" using assms by (rule readings_cong)
  show "classified a w1 = classified a w2" by (simp add: classified_readings r)
  then show "filter is_alert (fst (cycle a env w1)) = filter is_alert (fst (cycle a env w2))"
    by (simp add: cycle_alerts)
  show "snd (cycle a env w1) = snd (cycle a env w2)"
    by (simp add: cycle_outcome r assms split: sum.splits)
  show "list_all2 (same_but_mail_result w1 w2) (fst (cycle a env w1)) (fst (cycle a env w2))"
  proof (cases "readings w1")
    case None
    then have "cycle a env w1 = cycle a env w2"
      using assms by (auto simp: cycle_def readings_def split: sum.splits)
    then show ?thesis by (simp add: same_refl)
  next
    case (Some gpus)
    then have s2: "readings w2 = Some gpus" using r by simp
    show ?thesis
      unfolding cycle_checked[OF Some] cycle_checked[OF s2] fst_conv
      by (simp add: same_but_mail_result_def[of w1 w2 RunNvidiaSmi])
         (intro list_all2_appendI same_refl react_same)
  qed
  show "takeWhile (\<lambda>e. \<not> is_send e) (fst (cycle a env w1)) =
        takeWhile (\<lambda>e. \<not> is_send e) (fst (cycle a env w2))"
  proof (cases "readings w1")
    case None
    then have "cycle a env w1 = cycle a env w2"
      using assms by (auto simp: cycle_def readings_def split: sum.splits)
    then show ?thesis by simp
  next
    case (Some gpus)
    then have s2: "readings w2 = Some gpus" using r by simp
    have q: "\<forall>e\<in>set (report a gpus (idle_gpus a gpus)). \<not> is_send e"
      using report_no_send[of a gpus "idle_gpus a gpus"] by (simp add: list_ex_iff)
    show ?thesis
      unfolding cycle_checked[OF Some] cycle_checked[OF s2] fst_conv
      using q react_before_send[of a env "smtp_error w1" gpus "idle_gpus a gpus" "smtp_error w2"]
      by (simp add: takeWhile_append2)
  qed
qed

lemma main_loop_step:
  "snd (main_loop a env ws) = None \<Longrightarrow>
     main_loop a env (ws @ [w]) =
       (fst (main_loop a env ws) @ fst (cycle a env w),
        if snd (cycle a env w) = Continue then None else Some (snd (cycle a env w)))"
  by (simp add: main_loop_append main_loop_first)

lemma main_loop_alerts:
  "\<forall>w\<in>set ws. classified a w = Some idle \<Longrightarrow> idle \<noteq> [] \<Longrightarrow>
     filter is_alert (fst (main_loop a env ws)) =
       concat (replicate (length (filter is_poll (fst (main_loop a env ws)))) (alert idle))"
  by (induction ws) (simp_all add: main_loop_first cycle_alerts cycle_polls)

text \<open>
  C4. Alerting keeps no state across check cycles. What a run does in its current cycle
  is what \<open>cycle\<close> does on the configuration, the environment and the answers of this
  cycle, appended to what the earlier cycles did, whatever they observed. Two cycles that
  receive the same telemetry under the same configuration produce the same
  classification, the same events up to the call of the mail transport (the poll, the
  status report and the alert), the same alert decision and the same outcome; their events
  differ at most in the line that reports the answer of the mail transport. An idle
  condition that persists raises a fresh alert in every cycle: when every cycle of a run
  classifies the same non-empty list of devices idle, the run raises one alert per poll.
\<close>

theorem stateless_alerting:
  "(snd (main_loop a env ws1) = None \<and> snd (main_loop a env ws2) = None \<longrightarrow>
      main_loop a env (ws1 @ [w]) =
        (fst (main_loop a env ws1) @ fst (cycle a env w),
         if snd (cycle a env w) = Continue then None else Some (snd (cycle a env w))) \<and>
      main_loop a env (ws2 @ [w]) =
        (fst (main_loop a env ws2) @ fst (cycle a env w),
         if snd (cycle a env w) = Continue then None else Some (snd (cycle a env w)))) \<and>
   (nvidia_smi w1 = nvidia_smi w2 \<longrightarrow>
      classified a w1 = classified a w2 \<and>
      takeWhile (\<lambda>e. \<not> is_send e) (fst (cycle a env w1)) =
        takeWhile (\<lambda>e. \<not> is_send e) (fst (cycle a env w2)) \<and>
      list_all2 (same_but_mail_result w1 w2) (fst (cycle a env w1)) (fst (cycle a env w2)) \<and>
      filter is_alert (fst (cycle a env w1)) = filter is_alert (fst (cycle a env w2)) \<and>
      snd (cycle a env w1) = snd (cycle a env w2)) \<and>
   ((\<forall>w\<in>set ws. classified a w = Some idle) \<and> idle \<noteq> [] \<longrightarrow>
      filter is_alert (fst (main_loop a env ws)) =
        concat (replicate (length (filter is_poll (fst (main_loop a env ws)))) (alert idle)) \<and>
      (snd (main_loop a env ws) = None \<longrightarrow>
         filter is_alert (fst (main_loop a env ws)) = concat (replicate (length ws) (alert idle))))"
proof (intro conjI impI)
  assume "snd (main_loop a env ws1) = None \<and> snd (main_loop a env ws2) = None"
  then show "main_loop a env (ws1 @ [w]) =
        (fst (main_loop a env ws1) @ fst (cycle a env w),
         if snd (cycle a env w) = Continue then None else Some (snd (cycle a env w)))"
    "main_loop a env (ws2 @ [w]) =
        (fst (main_loop a env ws2) @ fst (cycle a env w),
         if snd (cycle a env w) = Continue then None else Some (snd (cycle a env w)))"
    by (simp_all add: main_loop_step)
next
  assume e: "nvidia_smi w1 = nvidia_smi w2"
  show "classified a w1 = classified a w2" by (rule cycle_same(4)[OF e])
  show "takeWhile (\<lambda>e. \<not> is_send e) (fst (cycle a env w1)) =
        takeWhile (\<lambda>e. \<not> is_send e) (fst (cycle a env w2))" by (rule cycle_same(2)[OF e])
  show "list_all2 (same_but_mail_result w1 w2) (fst (cycle a env w1)) (fst (cycle a env w2))"
    by (rule cycle_same(1)[OF e])
  show "filter is_alert (fst (cycle a env w1)) = filter is_alert (fst (cycle a env w2))"
    by (rule cycle_same(5)[OF e])
  show "snd (cycle a env w1) = snd (cycle a env w2)" by (rule cycle_same(3)[OF e])
next
  assume h: "(\<forall>w\<in>set ws. classified a w = Some idle) \<and> idle \<noteq> []"
  then show 1: "filter is_alert (fst (main_loop a env ws)) =
        concat (replicate (length (filter is_poll (fst (main_loop a env ws)))) (alert idle))"
    by (simp add: main_loop_alerts)
  assume "snd (main_loop a env ws) = None"
  then show "filter is_alert (fst (main_loop a env ws)) = concat (replicate (length ws) (alert idle))"
    unfolding 1 by (simp add: main_loop_polls)
qed


lemma idle_readings:
  "readings \<lparr>nvidia_smi = Inr ''0, 0, 0, 100'', smtp_error = f\<rparr> =
     Some [\<lparr>index = 0, util = 0, mem_used = 0, mem_total = 100\<rparr>]"
proof -
  have "parse_nvidia_smi ''0, 0, 0, 100'' =
          Inr [\<lparr>index = 0, util = 0, mem_used = 0, mem_total = 100\<rparr>]"
    by code_simp
  then show ?thesis by (simp add: readings_def)
qed

lemma idle_classified:
  "classified default_args \<lparr>nvidia_smi = Inr ''0, 0, 0, 100'', smtp_error = f\<rparr> =
     Some [\<lparr>index = 0, util = 0, mem_used = 0, mem_total = 100\<rparr>]"
  by (simp add: classified_readings idle_readings idle_gpus_def is_gpu_idle_def default_args_def)

lemma idle_continues:
  "snd (cycle default_args Map.empty \<lparr>nvidia_smi = Inr ''0, 0, 0, 100'', smtp_error = f\<rparr>)
     = Continue"
  by (simp add: cycle_outcome idle_readings default_args_def)

theorem stateless_alerting_witness:
  "snd (main_loop default_args Map.empty []) = None \<and>
   snd (main_loop default_args Map.empty
          [\<lparr>nvidia_smi = Inr ''0, 90, 4000, 8000'', smtp_error = None\<rparr>]) = None \<and>
   nvidia_smi \<lparr>nvidia_smi = Inr ''0, 0, 0, 100'', smtp_error = None\<rparr> =
     nvidia_smi \<lparr>nvidia_smi = Inr ''0, 0, 0, 100'', smtp_error = Some ''refused''\<rparr> \<and>
   classified default_args \<lparr>nvidia_smi = Inr ''0, 0, 0, 100'', smtp_error = None\<rparr> =
     Some [\<lparr>index = 0, util = 0, mem_used = 0, mem_total = 100\<rparr>] \<and>
   fst (main_loop default_args Map.empty
          ([\<lparr>nvidia_smi = Inr ''0, 90, 4000, 8000'', smtp_error = None\<rparr>] @
           [\<lparr>nvidia_smi = Inr ''0, 0, 0, 100'', smtp_error = None\<rparr>])) =
     fst (main_loop default_args Map.empty
            [\<lparr>nvidia_smi = Inr ''0, 90, 4000, 8000'', smtp_error = None\<rparr>]) @
     fst (main_loop default_args Map.empty
            ([] @ [\<lparr>nvidia_smi = Inr ''0, 0, 0, 100'', smtp_error = None\<rparr>])) \<and>
   snd (cycle default_args Map.empty \<lparr>nvidia_smi = Inr ''0, 0, 0, 100'', smtp_error = None\<rparr>) =
     snd (cycle default_args Map.empty
            \<lparr>nvidia_smi = Inr ''0, 0, 0, 100'', smtp_error = Some ''refused''\<rparr>) \<and>
   filter is_alert
     (fst (main_loop default_args Map.empty
        [\<lparr>nvidia_smi = Inr ''0, 0, 0, 100'', smtp_error = None\<rparr>,
         \<lparr>nvidia_smi = Inr ''0, 0, 0, 100'', smtp_error = None\<rparr>])) =
     [Print ''ALERT: idle GPU(s) detected -> 0'', Bell,
      Print ''ALERT: idle GPU(s) detected -> 0'', Bell]"
proof -
  let ?b = "\<lparr>nvidia_smi = Inr ''0, 90, 4000, 8000'', smtp_error = None\<rparr>"
  let ?i = "\<lparr>nvidia_smi = Inr ''0, 0, 0, 100'', smtp_error = None\<rparr>"
  let ?j = "\<lparr>nvidia_smi = Inr ''0, 0, 0, 100'', smtp_error = Some ''refused''\<rparr>"
  let ?g = "\<lparr>index = 0, util = 0, mem_used = 0, mem_total = 100\<rparr>"
  have n1: "snd (main_loop default_args Map.empty []) = None" by simp
  have n2: "snd (main_loop default_args Map.empty [?b]) = None"
    by (simp add: main_loop_running busy_continues)
  have n3: "snd (main_loop default_args Map.empty [?i, ?i]) = None"
    by (simp add: main_loop_running idle_continues)
  have e: "nvidia_smi ?i = nvidia_smi ?j" by simp
  have c: "\<forall>w\<in>set [?i, ?i]. classified default_args w = Some [?g]"
    by (simp add: idle_classified)
  have al: "alert [?g] = [Print ''ALERT: idle GPU(s) detected -> 0'', Bell]"
    by code_simp
  note t = stateless_alerting [of default_args Map.empty "[]" "[?b]" ?i ?i ?j "[?i, ?i]" "[?g]"]
  from t n1 n2 have 1:
    "main_loop default_args Map.empty ([] @ [?i]) =
       (fst (main_loop default_args Map.empty []) @ fst (cycle default_args Map.empty ?i),
        if snd (cycle default_args Map.empty ?i) = Continue then None
        else Some (snd (cycle default_args Map.empty ?i)))"
    "main_loop default_args Map.empty ([?b] @ [?i]) =
       (fst (main_loop default_args Map.empty [?b]) @ fst (cycle default_args Map.empty ?i),
        if snd (cycle default_args Map.empty ?i) = Continue then None
        else Some (snd (cycle default_args Map.empty ?i)))"
    by blast+
  have 2: "fst (main_loop default_args Map.empty ([?b] @ [?i])) =
     fst (main_loop default_args Map.empty [?b]) @
     fst (main_loop default_args Map.empty ([] @ [?i]))"
    unfolding 1 by simp
  from t e have 3: "snd (cycle default_args Map.empty ?i) = snd (cycle default_args Map.empty ?j)"
    by blast
  from t c n3 have "filter is_alert (fst (main_loop default_args Map.empty [?i, ?i])) =
      concat (replicate (length [?i, ?i]) (alert [?g]))"
    by blast
  then have 4: "filter is_alert (fst (main_loop default_args Map.empty [?i, ?i])) =
     [Print ''ALERT: idle GPU(s) detected -> 0'', Bell,
      Print ''ALERT: idle GPU(s) detected -> 0'', Bell]"
    by (simp add: al)
  have c1: "classified default_args ?i = Some [?g]" by (rule idle_classified)
  from n1 n2 e c1 2 3 4 show ?thesis by blast
qed

end
